theory Spec2Isabelle
  imports Complex_Main "HOL-Library.Word" "HOL-Library.Sublist"
begin

section \<open>Strings of the host language\<close>

text \<open>
  A JavaScript string is a sequence of 16-bit code units. The regular expressions of
  \<^verbatim>\<open>script.js\<close> carry no \<^verbatim>\<open>u\<close> flag, so they match code unit by code unit, and
  \<^verbatim>\<open>indexOf\<close> searches code units too. \<open>js\<close> writes an ASCII literal of the source.
\<close>

type_synonym code_unit = "16 word"
type_synonym jsstring = "code_unit list"

definition js :: "string \<Rightarrow> jsstring" where
  "js s = map of_char s"

text \<open>
  The class \<^verbatim>\<open>\s\<close> of ECMAScript: the WhiteSpace and LineTerminator code points, all of
  them in the Basic Multilingual Plane.
\<close>

definition isSpace :: "code_unit \<Rightarrow> bool" where
  "isSpace c \<longleftrightarrow>
     c = 0x0009 \<or> c = 0x000A \<or> c = 0x000B \<or> c = 0x000C \<or> c = 0x000D \<or> c = 0x0020 \<or>
     c = 0x00A0 \<or> c = 0x1680 \<or> (0x2000 \<le> c \<and> c \<le> 0x200A) \<or> c = 0x2028 \<or>
     c = 0x2029 \<or> c = 0x202F \<or> c = 0x205F \<or> c = 0x3000 \<or> c = 0xFEFF"

text \<open>
  \<^verbatim>\<open>String.prototype.toLowerCase\<close> belongs to the host, with the Unicode case tables behind
  it. Every function below that calls it takes it as the parameter \<open>lc\<close>, so the theorems
  hold for whatever the host computes. \<open>asciiLower\<close> agrees with the host on strings of
  ASCII code units and is what the concrete instances run.
\<close>

definition asciiLowerUnit :: "code_unit \<Rightarrow> code_unit" where
  "asciiLowerUnit c = (if 0x41 \<le> c \<and> c \<le> 0x5A then c + 0x20 else c)"

definition asciiLower :: "jsstring \<Rightarrow> jsstring" where
  "asciiLower s = map asciiLowerUnit s"

section \<open>Regular expressions\<close>

text \<open>
  The constructs the three patterns of \<^verbatim>\<open>filterAndDisplayFeatures\<close> use: a literal code
  unit, \<^verbatim>\<open>\s\<close>, sequence, \<^verbatim>\<open>|\<close>, \<^verbatim>\<open>?\<close>, \<^verbatim>\<open>+\<close> and the capturing group. \<open>Empty\<close> is
  \<^verbatim>\<open>(?:)\<close> and \<open>Never\<close> is the empty class \<^verbatim>\<open>[]\<close>; the matcher needs both for its
  intermediate expressions.
\<close>

datatype regex =
    Never
  | Empty
  | Lit code_unit
  | Space
  | Seq regex regex
  | Alt regex regex
  | Opt regex
  | Plus regex
  | Group regex

fun literal :: "jsstring \<Rightarrow> regex" where
  "literal [] = Empty"
| "literal (c # cs) = Seq (Lit c) (literal cs)"

fun nullable :: "regex \<Rightarrow> bool" where
  "nullable Never = False"
| "nullable Empty = True"
| "nullable (Lit a) = False"
| "nullable Space = False"
| "nullable (Seq r s) = (nullable r \<and> nullable s)"
| "nullable (Alt r s) = (nullable r \<or> nullable s)"
| "nullable (Opt r) = True"
| "nullable (Plus r) = nullable r"
| "nullable (Group r) = nullable r"

text \<open>\<open>deriv c r\<close> matches what \<open>r\<close> matches after the code unit \<open>c\<close> has been read.\<close>

fun deriv :: "code_unit \<Rightarrow> regex \<Rightarrow> regex" where
  "deriv c Never = Never"
| "deriv c Empty = Never"
| "deriv c (Lit a) = (if a = c then Empty else Never)"
| "deriv c Space = (if isSpace c then Empty else Never)"
| "deriv c (Seq r s) =
     (if nullable r then Alt (Seq (deriv c r) s) (deriv c s) else Seq (deriv c r) s)"
| "deriv c (Alt r s) = Alt (deriv c r) (deriv c s)"
| "deriv c (Opt r) = deriv c r"
| "deriv c (Plus r) = Seq (deriv c r) (Opt (Plus r))"
| "deriv c (Group r) = deriv c r"

text \<open>\<open>matchHere r s\<close>: some prefix of \<open>s\<close> matches \<open>r\<close>, the attempt at one start index.\<close>

fun matchHere :: "regex \<Rightarrow> jsstring \<Rightarrow> bool" where
  "matchHere r [] = nullable r"
| "matchHere r (c # cs) = (nullable r \<or> matchHere (deriv c r) cs)"

text \<open>
  \<^verbatim>\<open>RegExp.prototype.test\<close> of a pattern without flags: the start indices are tried from
  the left, the end of the string included, and the answer is whether one of them matches.
\<close>

fun test :: "regex \<Rightarrow> jsstring \<Rightarrow> bool" where
  "test r [] = matchHere r []"
| "test r (c # cs) = (matchHere r (c # cs) \<or> test r cs)"

subsection \<open>The strings a pattern matches\<close>

inductive_set repeat1 :: "jsstring set \<Rightarrow> jsstring set" for A :: "jsstring set" where
  one: "p \<in> A \<Longrightarrow> p \<in> repeat1 A"
| more: "p \<in> A \<Longrightarrow> q \<in> repeat1 A \<Longrightarrow> p @ q \<in> repeat1 A"

fun lang :: "regex \<Rightarrow> jsstring set" where
  "lang Never = {}"
| "lang Empty = {[]}"
| "lang (Lit a) = {[a]}"
| "lang Space = {[c] | c. isSpace c}"
| "lang (Seq r s) = {p @ q | p q. p \<in> lang r \<and> q \<in> lang s}"
| "lang (Alt r s) = lang r \<union> lang s"
| "lang (Opt r) = insert [] (lang r)"
| "lang (Plus r) = repeat1 (lang r)"
| "lang (Group r) = lang r"

text \<open>\<open>contains s t\<close>: \<open>t\<close> occurs in \<open>s\<close> as a contiguous run of code units.\<close>

fun contains :: "jsstring \<Rightarrow> jsstring \<Rightarrow> bool" where
  "contains [] t = (t = [])"
| "contains (c # cs) t = (prefix t (c # cs) \<or> contains cs t)"

text \<open>
  \<^verbatim>\<open>String.prototype.indexOf\<close> with one argument: the first index at which the argument
  occurs, or \<open>-1\<close>.
\<close>

fun indexOfFrom :: "nat \<Rightarrow> jsstring \<Rightarrow> jsstring \<Rightarrow> int" where
  "indexOfFrom i [] t = (if t = [] then int i else - 1)"
| "indexOfFrom i (c # cs) t = (if prefix t (c # cs) then int i else indexOfFrom (Suc i) cs t)"

definition indexOf :: "jsstring \<Rightarrow> jsstring \<Rightarrow> int" where
  "indexOf s t = indexOfFrom 0 s t"

section \<open>The data\<close>

text \<open>
  A feature of \<^verbatim>\<open>data.geojson\<close>: a point and its properties. \<open>area\<close> is optional:
  \<open>None\<close> stands for a property that is \<^verbatim>\<open>null\<close> or missing.
\<close>

type_synonym latlng = "real \<times> real"

record properties =
  name :: jsstring
  amenity_type :: jsstring
  area :: "jsstring option"

record feature =
  geometry :: latlng
  properties :: properties

record featureCollection =
  features :: "feature list"

text \<open>What the map shows: circle markers, grouped in layers.\<close>

record marker =
  position :: latlng
  radius :: nat
  fillColor :: jsstring
  color :: jsstring
  weight :: nat
  opacity :: nat
  fillOpacity :: real
  popup :: "jsstring option"

type_synonym layer = "marker list"

datatype view =
    SetView latlng nat
  | FitBounds "latlng list" "nat \<times> nat"

text \<open>
  The globals of the script and what it does to the page: the loaded data, the layer on
  display, the layers of the map (the tile layer apart), the viewport, and the messages
  sent to \<^verbatim>\<open>alert\<close> and to \<^verbatim>\<open>console.error\<close>, oldest first.
\<close>

record world =
  allAmenitiesData :: "featureCollection option"
  currentLayer :: "layer option"
  mapLayers :: "layer list"
  mapView :: view
  alerts :: "jsstring list"
  console :: "jsstring list"

datatype error = TypeError

definition ABU_DHABI_CENTER :: latlng where
  "ABU_DHABI_CENTER = (24.47, 54.37)"

definition INITIAL_ZOOM :: nat where
  "INITIAL_ZOOM = 12"

definition initialWorld :: world where
  "initialWorld =
     \<lparr>allAmenitiesData = None, currentLayer = None, mapLayers = [],
      mapView = SetView ABU_DHABI_CENTER INITIAL_ZOOM, alerts = [], console = []\<rparr>"

section \<open>The query interpreter\<close>

text \<open>
  The three patterns, as the source writes them: \<^verbatim>\<open>/(parks?)/\<close>,
  \<^verbatim>\<open>/(hospitals?|clinics?)/\<close> and \<^verbatim>\<open>/(near|at|in)\s+(corniche)/\<close>.
\<close>

definition parkPattern :: regex where
  "parkPattern = Group (Seq (literal (js ''park'')) (Opt (Lit (of_char CHR ''s''))))"

definition hospitalPattern :: regex where
  "hospitalPattern =
     Group (Alt (Seq (literal (js ''hospital'')) (Opt (Lit (of_char CHR ''s''))))
                (Seq (literal (js ''clinic'')) (Opt (Lit (of_char CHR ''s'')))))"

definition locationPattern :: regex where
  "locationPattern =
     Seq (Group (Alt (literal (js ''near'')) (Alt (literal (js ''at'')) (literal (js ''in'')))))
         (Seq (Plus Space) (Group (literal (js ''corniche''))))"

text \<open>Both filters are computed from \<^verbatim>\<open>lowerQuery\<close>; \<open>None\<close> is \<^verbatim>\<open>null\<close>.\<close>

definition amenityFilter :: "jsstring \<Rightarrow> jsstring option" where
  "amenityFilter lowerQuery =
     (if test parkPattern lowerQuery then Some (js ''park'')
      else if test hospitalPattern lowerQuery then Some (js ''hospital'')
      else None)"

definition locationFilter :: "jsstring \<Rightarrow> jsstring option" where
  "locationFilter lowerQuery =
     (if test locationPattern lowerQuery then Some (js ''corniche'') else None)"

section \<open>The filter\<close>

text \<open>
  A string or \<^verbatim>\<open>null\<close> in a condition: \<^verbatim>\<open>null\<close>, a missing property and the empty string
  are falsy.
\<close>

fun truthy :: "jsstring option \<Rightarrow> bool" where
  "truthy None = False"
| "truthy (Some s) = (s \<noteq> [])"

text \<open>Calling \<^verbatim>\<open>toLowerCase\<close> on a value that is \<^verbatim>\<open>null\<close> or missing throws.\<close>

fun toLowerCase :: "(jsstring \<Rightarrow> jsstring) \<Rightarrow> jsstring option \<Rightarrow> error + jsstring" where
  "toLowerCase lc None = Inl TypeError"
| "toLowerCase lc (Some s) = Inr (lc s)"

text \<open>
  The callback given to \<^verbatim>\<open>filter\<close>. \<open>af\<close> and \<open>lf\<close> are the variables
  \<^verbatim>\<open>amenityFilter\<close> and \<^verbatim>\<open>locationFilter\<close> it closes over.
\<close>

definition featureMatch ::
  "(jsstring \<Rightarrow> jsstring) \<Rightarrow> jsstring option \<Rightarrow> jsstring option \<Rightarrow> feature \<Rightarrow> error + bool" where
  "featureMatch lc af lf f =
     (let props = properties f;
          match = (if truthy af \<and> Some (amenity_type props) \<noteq> af then False else True)
      in case lf of
           None \<Rightarrow> Inr match
         | Some l \<Rightarrow>
             if match \<and> truthy (Some l) then
               (if \<not> truthy (area props) then Inr False
                else case toLowerCase lc (area props) of
                       Inl e \<Rightarrow> Inl e
                     | Inr a \<Rightarrow> (if indexOf a l = - 1 then Inr False else Inr match))
             else Inr match)"

text \<open>
  \<^verbatim>\<open>Array.prototype.filter\<close> with a callback that may throw: the elements are visited in
  order, the kept ones stay in that order, and the first exception ends the call.
\<close>

fun filterE :: "('a \<Rightarrow> error + bool) \<Rightarrow> 'a list \<Rightarrow> error + 'a list" where
  "filterE p [] = Inr []"
| "filterE p (x # xs) =
     (case p x of
        Inl e \<Rightarrow> Inl e
      | Inr b \<Rightarrow> (case filterE p xs of
                    Inl e \<Rightarrow> Inl e
                  | Inr ys \<Rightarrow> Inr (if b then x # ys else ys)))"

definition filteredFeatures ::
  "(jsstring \<Rightarrow> jsstring) \<Rightarrow> jsstring option \<Rightarrow> jsstring option \<Rightarrow> featureCollection
     \<Rightarrow> error + feature list" where
  "filteredFeatures lc af lf data = filterE (featureMatch lc af lf) (features data)"

section \<open>The display\<close>

definition pointToLayer :: "feature \<Rightarrow> latlng \<Rightarrow> marker" where
  "pointToLayer f ll =
     (let color = (if amenity_type (properties f) = js ''park'' then js ''green'' else js ''red'')
      in \<lparr>position = ll, radius = 8, fillColor = color, color = js ''#000'', weight = 1,
          opacity = 1, fillOpacity = 0.8, popup = None\<rparr>)"

definition onEachFeature :: "feature \<Rightarrow> marker \<Rightarrow> marker" where
  "onEachFeature f m =
     m\<lparr>popup := Some (js ''<b>'' @ name (properties f) @ js ''</b><br>''
                       @ amenity_type (properties f))\<rparr>"

text \<open>\<^verbatim>\<open>L.geoJSON\<close> with the two options: one marker for each feature, in order.\<close>

definition geoJSON :: "feature list \<Rightarrow> layer" where
  "geoJSON fs = map (\<lambda>f. onEachFeature f (pointToLayer f (geometry f))) fs"

definition getBounds :: "layer \<Rightarrow> latlng list" where
  "getBounds l = map position l"

definition noResultsNotice :: jsstring where
  "noResultsNotice = js ''No results found for your query.''"

definition filterAndDisplayFeatures ::
  "(jsstring \<Rightarrow> jsstring) \<Rightarrow> jsstring \<Rightarrow> world \<Rightarrow> error + world" where
  "filterAndDisplayFeatures lc query w =
     (case allAmenitiesData w of
        None \<Rightarrow> Inr w
      | Some data \<Rightarrow>
          (let w1 = (case currentLayer w of
                       None \<Rightarrow> w
                     | Some l \<Rightarrow> w\<lparr>mapLayers := remove1 l (mapLayers w)\<rparr>);
               lowerQuery = lc query;
               af = amenityFilter lowerQuery;
               lf = locationFilter lowerQuery
           in case filteredFeatures lc af lf data of
                Inl e \<Rightarrow> Inl e
              | Inr ffs \<Rightarrow>
                  (let l = geoJSON ffs;
                       w2 = w1\<lparr>currentLayer := Some l, mapLayers := mapLayers w1 @ [l]\<rparr>
                   in if length ffs > 0 then
                        Inr (w2\<lparr>mapView := FitBounds (getBounds l) (50, 50)\<rparr>)
                      else if query \<noteq> [] then
                        Inr (w2\<lparr>alerts := alerts w2 @ [noResultsNotice],
                                mapView := SetView ABU_DHABI_CENTER INITIAL_ZOOM\<rparr>)
                      else Inr w2)))"

section \<open>The events\<close>

text \<open>
  What can happen after the script has run: the fetch delivers the parsed data or fails,
  the button is clicked, a key is pressed in the input field. \<open>Click\<close> and \<open>Keypress\<close>
  carry the value of the input field; \<open>Keypress\<close> carries the key first.
\<close>

datatype event =
    Loaded featureCollection
  | LoadFailed jsstring
  | Click jsstring
  | Keypress jsstring jsstring

fun handle :: "(jsstring \<Rightarrow> jsstring) \<Rightarrow> event \<Rightarrow> world \<Rightarrow> error + world" where
  "handle lc (Loaded data) w = filterAndDisplayFeatures lc [] (w\<lparr>allAmenitiesData := Some data\<rparr>)"
| "handle lc (LoadFailed msg) w =
     Inr (w\<lparr>console := console w @ [js ''Error loading GeoJSON data:'' @ msg],
            alerts := alerts w @ [js ''Could not load amenity data.'']\<rparr>)"
| "handle lc (Click v) w = filterAndDisplayFeatures lc v w"
| "handle lc (Keypress k v) w =
     (if k = js ''Enter'' then filterAndDisplayFeatures lc v w else Inr w)"

fun run :: "(jsstring \<Rightarrow> jsstring) \<Rightarrow> event list \<Rightarrow> world \<Rightarrow> error + world" where
  "run lc [] w = Inr w"
| "run lc (e # es) w = (case handle lc e w of Inl x \<Rightarrow> Inl x | Inr w' \<Rightarrow> run lc es w')"

fun isLoaded :: "event \<Rightarrow> bool" where
  "isLoaded (Loaded data) = True"
| "isLoaded e = False"

section \<open>The specification's notions\<close>

text \<open>
  The matching invariant in the specification's words: the amenity filter is absent or
  equals the feature's \<open>amenity_type\<close>, and the location filter is absent or the
  feature's \<open>area\<close>, compared case-insensitively, contains it. A feature without an
  area contains nothing.
\<close>

definition specMatches ::
  "(jsstring \<Rightarrow> jsstring) \<Rightarrow> jsstring option \<Rightarrow> jsstring option \<Rightarrow> feature \<Rightarrow> bool" where
  "specMatches lc af lf f \<longleftrightarrow>
     (af = None \<or> Some (amenity_type (properties f)) = af) \<and>
     (case lf of
        None \<Rightarrow> True
      | Some l \<Rightarrow> (case area (properties f) of
                    None \<Rightarrow> False
                  | Some a \<Rightarrow> contains (lc a) (lc l)))"

text \<open>
  The location phrase in the specification's words: one of the prepositions, then
  whitespace, then the token \<^verbatim>\<open>corniche\<close>, anywhere in the text.
\<close>

definition specLocationPhrase :: "jsstring \<Rightarrow> bool" where
  "specLocationPhrase s \<longleftrightarrow>
     (\<exists>a p ws b. s = a @ p @ ws @ js ''corniche'' @ b \<and>
        p \<in> {js ''near'', js ''at'', js ''in''} \<and> ws \<noteq> [] \<and> list_all isSpace ws)"

text \<open>
  Amenity detection in the specification's words: a keyword counts when it stands as a
  whole word, with a word boundary (\<^verbatim>\<open>\b\<close>) on each side. \<open>isWordChar\<close> is the class
  \<^verbatim>\<open>\w\<close>; \<open>wholeWordFrom prev s t\<close> looks for the keyword \<open>t\<close> in \<open>s\<close>, \<open>prev\<close>
  telling whether the code unit before \<open>s\<close> is a word character.
\<close>

definition isWordChar :: "code_unit \<Rightarrow> bool" where
  "isWordChar c \<longleftrightarrow>
     (0x30 \<le> c \<and> c \<le> 0x39) \<or> (0x41 \<le> c \<and> c \<le> 0x5A) \<or> c = 0x5F \<or> (0x61 \<le> c \<and> c \<le> 0x7A)"

fun wholeWordFrom :: "bool \<Rightarrow> jsstring \<Rightarrow> jsstring \<Rightarrow> bool" where
  "wholeWordFrom prev [] t = False"
| "wholeWordFrom prev (c # cs) t =
     ((\<not> prev \<and> prefix t (c # cs) \<and>
       (case drop (length t) (c # cs) of [] \<Rightarrow> True | d # ds \<Rightarrow> \<not> isWordChar d))
      \<or> wholeWordFrom (isWordChar c) cs t)"

definition specWholeWord :: "jsstring \<Rightarrow> jsstring \<Rightarrow> bool" where
  "specWholeWord s t = wholeWordFrom False s t"

definition specAmenityFilter :: "jsstring \<Rightarrow> jsstring option" where
  "specAmenityFilter lowerQuery =
     (if specWholeWord lowerQuery (js ''park'') \<or> specWholeWord lowerQuery (js ''parks'')
      then Some (js ''park'')
      else if specWholeWord lowerQuery (js ''hospital'')
            \<or> specWholeWord lowerQuery (js ''hospitals'')
            \<or> specWholeWord lowerQuery (js ''clinic'')
            \<or> specWholeWord lowerQuery (js ''clinics'')
      then Some (js ''hospital'')
      else None)"

section \<open>Auxiliary notions and sample data\<close>

text \<open>\<open>keeps\<close>: the callback returns \<^verbatim>\<open>true\<close> for the feature.\<close>

definition keeps ::
  "(jsstring \<Rightarrow> jsstring) \<Rightarrow> jsstring option \<Rightarrow> jsstring option \<Rightarrow> feature \<Rightarrow> bool" where
  "keeps lc af lf f \<longleftrightarrow> featureMatch lc af lf f = Inr True"

text \<open>
  A small collection for the concrete instances: one park on the Corniche, a park and a
  hospital elsewhere, a park without an area and a hospital whose area is the empty string.
\<close>

definition mkFeature :: "latlng \<Rightarrow> string \<Rightarrow> string \<Rightarrow> string option \<Rightarrow> feature" where
  "mkFeature ll n t a =
     \<lparr>geometry = ll, properties = \<lparr>name = js n, amenity_type = js t, area = map_option js a\<rparr>\<rparr>"

definition exampleData :: featureCollection where
  "exampleData =
     \<lparr>features =
        [mkFeature (24.46, 54.33) ''Khalifa Hospital'' ''hospital'' (Some ''Al Bateen''),
         mkFeature (24.47, 54.34) ''Family Park'' ''park'' (Some ''Al Corniche''),
         mkFeature (24.45, 54.39) ''Khalidiyah Park'' ''park'' (Some ''Al Khalidiyah''),
         mkFeature (24.42, 54.43) ''Mushrif Park'' ''park'' None,
         mkFeature (24.48, 54.36) ''City Clinic'' ''hospital'' (Some [])]\<rparr>"

definition loadedWorld :: world where
  "loadedWorld = initialWorld\<lparr>allAmenitiesData := Some exampleData\<rparr>"

section \<open>Substring search and the matcher\<close>

lemma contains_iff: "contains s t \<longleftrightarrow> (\<exists>a b. s = a @ t @ b)"
proof (induction s)
  case Nil then show ?case by auto
next
  case (Cons c cs)
  show ?case
  proof
    assume "contains (c # cs) t"
    then consider "prefix t (c # cs)" | "contains cs t" by auto
    then show "\<exists>a b. c # cs = a @ t @ b"
    proof cases
      case 1 then obtain b where "c # cs = t @ b" by (auto simp: prefix_def)
      then have "c # cs = [] @ t @ b" by simp
      then show ?thesis by blast
    next
      case 2 then obtain a b where "cs = a @ t @ b" using Cons.IH by auto
      then have "c # cs = (c # a) @ t @ b" by simp
      then show ?thesis by blast
    qed
  next
    assume "\<exists>a b. c # cs = a @ t @ b"
    then obtain a b where ab: "c # cs = a @ t @ b" by auto
    show "contains (c # cs) t"
    proof (cases a)
      case Nil with ab have "prefix t (c # cs)" by (simp add: prefix_def)
      then show ?thesis by simp
    next
      case (Cons x a') with ab have "cs = a' @ t @ b" by simp
      then show ?thesis using Cons.IH by auto
    qed
  qed
qed

lemma indexOfFrom_none: "indexOfFrom i s t = - 1 \<longleftrightarrow> \<not> contains s t"
proof (induction i s t rule: indexOfFrom.induct)
  case (1 i t) show ?case by simp
next
  case (2 i c cs t)
  then show ?case by auto
qed

lemma indexOf_none: "indexOf s t = - 1 \<longleftrightarrow> \<not> contains s t"
  by (simp add: indexOf_def indexOfFrom_none)

lemma nullable_iff: "nullable r \<longleftrightarrow> [] \<in> lang r"
proof (induction r)
  case (Plus r)
  have "[] \<in> repeat1 A \<Longrightarrow> [] \<in> A" for A
    by (induction "[]::jsstring" rule: repeat1.induct) auto
  then show ?case using Plus by (auto intro: repeat1.one)
qed auto

lemma repeat1_Cons: "c # w \<in> repeat1 A \<longleftrightarrow> (\<exists>u v. w = u @ v \<and> c # u \<in> A \<and> (v = [] \<or> v \<in> repeat1 A))"
proof
  assume "c # w \<in> repeat1 A"
  then show "\<exists>u v. w = u @ v \<and> c # u \<in> A \<and> (v = [] \<or> v \<in> repeat1 A)"
  proof (induction "c # w" arbitrary: w rule: repeat1.induct)
    case one then show ?case by auto
  next
    case (more p q)
    show ?case
    proof (cases p)
      case Nil with more show ?thesis by auto
    next
      case (Cons x p')
      with more have "w = p' @ q" "c # p' \<in> A" by auto
      with more show ?thesis by blast
    qed
  qed
next
  assume "\<exists>u v. w = u @ v \<and> c # u \<in> A \<and> (v = [] \<or> v \<in> repeat1 A)"
  then obtain u v where "w = u @ v" "c # u \<in> A" "v = [] \<or> v \<in> repeat1 A" by auto
  then show "c # w \<in> repeat1 A"
    using repeat1.one[of "c # u" A] repeat1.more[of "c # u" A v] by auto
qed

lemma lang_deriv: "w \<in> lang (deriv c r) \<longleftrightarrow> c # w \<in> lang r"
proof (induction r arbitrary: w)
  case (Seq r s)
  show ?case
    by (auto simp: Seq nullable_iff Cons_eq_append_conv)
next
  case (Plus r)
  show ?case by (auto simp: Plus repeat1_Cons) 
qed auto

lemma matchHere_iff: "matchHere r s \<longleftrightarrow> (\<exists>p t. s = p @ t \<and> p \<in> lang r)"
proof (induction s arbitrary: r)
  case Nil then show ?case by (simp add: nullable_iff)
next
  case (Cons c cs)
  show ?case
    by (auto simp: Cons nullable_iff lang_deriv Cons_eq_append_conv)
qed

lemma test_iff: "test r s \<longleftrightarrow> (\<exists>a p b. s = a @ p @ b \<and> p \<in> lang r)"
proof (induction s)
  case Nil then show ?case by (simp add: nullable_iff)
next
  case (Cons c cs)
  have "(\<exists>a p b. c # cs = a @ p @ b \<and> p \<in> lang r) \<longleftrightarrow>
        (\<exists>p b. c # cs = p @ b \<and> p \<in> lang r) \<or> (\<exists>a p b. cs = a @ p @ b \<and> p \<in> lang r)"
    (is "?L \<longleftrightarrow> ?H \<or> ?T")
  proof
    assume ?L
    then obtain a p b where ab: "c # cs = a @ p @ b" "p \<in> lang r" by auto
    show "?H \<or> ?T"
    proof (cases a)
      case Nil with ab show ?thesis by auto
    next
      case (Cons x a') with ab have "cs = a' @ p @ b" by simp
      with ab show ?thesis by blast
    qed
  next
    assume "?H \<or> ?T"
    then show ?L
    proof
      assume ?H
      then obtain p b where "c # cs = [] @ p @ b" "p \<in> lang r" by auto
      then show ?L by blast
    next
      assume ?T
      then obtain a p b where "c # cs = (c # a) @ p @ b" "p \<in> lang r" by auto
      then show ?L by blast
    qed
  qed
  then show ?case using Cons by (simp add: matchHere_iff del: matchHere.simps)
qed

lemma lang_literal: "lang (literal s) = {s}"
  by (induction s) auto

lemma lang_optional_s: "lang (Seq (literal t) (Opt (Lit c))) = {t, t @ [c]}"
  by (auto simp: lang_literal)

lemma contains_append: "contains s (t @ u) \<Longrightarrow> contains s t"
  unfolding contains_iff by (metis append.assoc)

lemma test_parkPattern: "test parkPattern s \<longleftrightarrow> contains s (js ''park'')"
proof -
  have "test parkPattern s \<longleftrightarrow>
          contains s (js ''park'') \<or> contains s (js ''park'' @ [of_char CHR ''s''])"
    unfolding test_iff parkPattern_def lang.simps(9) lang_optional_s contains_iff by blast
  then show ?thesis using contains_append by blast
qed

lemma test_hospitalPattern:
  "test hospitalPattern s \<longleftrightarrow> contains s (js ''hospital'') \<or> contains s (js ''clinic'')"
proof -
  have L: "lang hospitalPattern =
        {js ''hospital'', js ''hospital'' @ [of_char CHR ''s''],
         js ''clinic'', js ''clinic'' @ [of_char CHR ''s'']}"
    unfolding hospitalPattern_def lang.simps(9) lang.simps(6) lang_optional_s by blast
  have "test hospitalPattern s \<longleftrightarrow>
          contains s (js ''hospital'') \<or> contains s (js ''hospital'' @ [of_char CHR ''s'']) \<or>
          contains s (js ''clinic'') \<or> contains s (js ''clinic'' @ [of_char CHR ''s''])"
    unfolding test_iff L contains_iff by blast
  then show ?thesis using contains_append by blast
qed

lemma repeat1_Space: "repeat1 (lang Space) = {ws. ws \<noteq> [] \<and> list_all isSpace ws}"
proof (rule set_eqI, rule iffI)
  fix ws assume "ws \<in> repeat1 (lang Space)"
  then have "ws \<noteq> [] \<and> list_all isSpace ws"
    by (induction rule: repeat1.induct) auto
  then show "ws \<in> {ws. ws \<noteq> [] \<and> list_all isSpace ws}" by simp
next
  fix ws assume "ws \<in> {ws. ws \<noteq> [] \<and> list_all isSpace ws}"
  then have "ws \<noteq> []" "list_all isSpace ws" by auto
  then show "ws \<in> repeat1 (lang Space)"
  proof (induction ws)
    case Nil then show ?case by simp
  next
    case (Cons c cs)
    show ?case
    proof (cases cs)
      case Nil with Cons.prems show ?thesis by (auto intro: repeat1.one)
    next
      case (Cons d ds)
      with Cons.prems Cons.IH have "cs \<in> repeat1 (lang Space)" "[c] \<in> lang Space" by auto
      then have "[c] @ cs \<in> repeat1 (lang Space)" by (rule repeat1.more[rotated])
      then show ?thesis by simp
    qed
  qed
qed

lemma lang_prepositions:
  "lang (Group (Alt (literal (js ''near'')) (Alt (literal (js ''at'')) (literal (js ''in''))))) =
     {js ''near'', js ''at'', js ''in''}"
  unfolding lang.simps lang_literal by blast

lemma lang_spaced_corniche:
  "lang (Seq (Plus Space) (Group (literal (js ''corniche'')))) =
     {ws @ js ''corniche'' | ws. ws \<noteq> [] \<and> list_all isSpace ws}"
  unfolding lang.simps(5) lang.simps(8) lang.simps(9) lang_literal repeat1_Space by blast

lemma test_locationPattern: "test locationPattern s \<longleftrightarrow> specLocationPhrase s"
proof
  assume "test locationPattern s"
  then obtain a m b where s: "s = a @ m @ b" and m: "m \<in> lang locationPattern"
    unfolding test_iff by blast
  from m obtain p q where pq: "m = p @ q"
      "p \<in> {js ''near'', js ''at'', js ''in''}"
      "q \<in> lang (Seq (Plus Space) (Group (literal (js ''corniche''))))"
    unfolding locationPattern_def lang.simps(5) lang_prepositions by blast
  from pq(3) obtain ws where ws: "q = ws @ js ''corniche''" "ws \<noteq> []" "list_all isSpace ws"
    unfolding lang_spaced_corniche by blast
  have "s = a @ p @ ws @ js ''corniche'' @ b" using s pq(1) ws(1) by simp
  then show "specLocationPhrase s"
    unfolding specLocationPhrase_def using pq(2) ws(2,3) by blast
next
  assume "specLocationPhrase s"
  then obtain a p ws b where s: "s = a @ p @ ws @ js ''corniche'' @ b"
      and p: "p \<in> {js ''near'', js ''at'', js ''in''}"
      and ws: "ws \<noteq> []" "list_all isSpace ws"
    unfolding specLocationPhrase_def by blast
  have "ws @ js ''corniche'' \<in> lang (Seq (Plus Space) (Group (literal (js ''corniche''))))"
    unfolding lang_spaced_corniche using ws by blast
  then have "p @ (ws @ js ''corniche'') \<in> lang locationPattern"
    unfolding locationPattern_def lang.simps(5) lang_prepositions using p by blast
  moreover have "s = a @ (p @ (ws @ js ''corniche'')) @ b" using s by simp
  ultimately show "test locationPattern s" unfolding test_iff by blast
qed

section \<open>The filter as a list filter\<close>

lemma featureMatch_value:
  "featureMatch lc af lf f =
     Inr ((\<not> truthy af \<or> Some (amenity_type (properties f)) = af) \<and>
          (case lf of
             None \<Rightarrow> True
           | Some l \<Rightarrow> l = [] \<or>
               (case area (properties f) of
                  None \<Rightarrow> False
                | Some a \<Rightarrow> a \<noteq> [] \<and> contains (lc a) l)))"
  by (cases lf; cases "area (properties f)")
     (auto simp: featureMatch_def Let_def indexOf_none)

lemma featureMatch_keeps: "featureMatch lc af lf f = Inr (keeps lc af lf f)"
  unfolding keeps_def featureMatch_value by simp

lemma filterE_filter: "(\<And>x. p x = Inr (q x)) \<Longrightarrow> filterE p xs = Inr (filter q xs)"
  by (induction xs) auto

lemma filteredFeatures_filter:
  "filteredFeatures lc af lf data = Inr (filter (keeps lc af lf) (features data))"
  unfolding filteredFeatures_def by (rule filterE_filter) (rule featureMatch_keeps)

lemma keeps_specMatches:
  assumes "lc [] = []" and "af \<noteq> Some []" and "\<forall>l. lf = Some l \<longrightarrow> l \<noteq> [] \<and> lc l = l"
  shows "keeps lc af lf f \<longleftrightarrow> specMatches lc af lf f"
proof -
  have af: "\<not> truthy af \<longleftrightarrow> af = None" using assms(2) by (cases af) auto
  show ?thesis
  proof (cases lf)
    case None
    then show ?thesis
      by (simp add: keeps_def featureMatch_value specMatches_def af)
  next
    case (Some l)
    with assms(3) have l: "l \<noteq> []" "lc l = l" by auto
    have e: "\<not> contains [] l" using l(1) by simp
    show ?thesis
      using Some l e assms(1)
      by (cases "area (properties f)")
         (auto simp: keeps_def featureMatch_value specMatches_def af)
  qed
qed

lemma park_neq_hospital: "js ''park'' \<noteq> js ''hospital''"
  by (simp add: js_def)

lemma contains_set: "contains s t \<Longrightarrow> set t \<subseteq> set s"
  unfolding contains_iff by auto

lemma spaces_no_letter:
  assumes "list_all isSpace s" and "c \<in> set t" and "\<not> isSpace c"
  shows "\<not> contains s t"
proof
  assume "contains s t"
  then have "c \<in> set s" using assms(2) contains_set by blast
  then show False using assms(1,3) by (auto simp: list_all_iff)
qed

lemma p_not_space: "\<not> isSpace (of_char CHR ''p'')"
  by (simp add: isSpace_def)
lemma h_not_space: "\<not> isSpace (of_char CHR ''h'')"
  by (simp add: isSpace_def)
lemma c_not_space: "\<not> isSpace (of_char CHR ''c'')"
  by (simp add: isSpace_def)

lemma spaces_no_keyword:
  assumes "list_all isSpace s"
  shows "\<not> contains s (js ''park'')" and "\<not> contains s (js ''hospital'')"
    and "\<not> contains s (js ''clinic'')" and "\<not> specLocationPhrase s"
proof -
  show "\<not> contains s (js ''park'')"
    by (rule spaces_no_letter[OF assms _ p_not_space]) (simp add: js_def)
  show "\<not> contains s (js ''hospital'')"
    by (rule spaces_no_letter[OF assms _ h_not_space]) (simp add: js_def)
  show "\<not> contains s (js ''clinic'')"
    by (rule spaces_no_letter[OF assms _ c_not_space]) (simp add: js_def)
  show "\<not> specLocationPhrase s"
  proof
    assume "specLocationPhrase s"
    then obtain a p ws b where "s = a @ p @ ws @ js ''corniche'' @ b"
      unfolding specLocationPhrase_def by blast
    then have "s = (a @ p @ ws) @ js ''corniche'' @ b" by simp
    then have "contains s (js ''corniche'')" unfolding contains_iff by blast
    moreover have "\<not> contains s (js ''corniche'')"
      by (rule spaces_no_letter[OF assms _ c_not_space]) (simp add: js_def)
    ultimately show False by blast
  qed
qed

lemma no_filter_keeps_all: "filteredFeatures lc None None data = Inr (features data)"
  by (simp add: filteredFeatures_filter keeps_def featureMatch_value)

lemma asciiLower_spaces: "list_all isSpace s \<Longrightarrow> list_all isSpace (asciiLower s)"
proof -
  have "isSpace c \<Longrightarrow> asciiLowerUnit c = c" for c
  proof -
    assume sp: "isSpace c"
    have "\<not> (0x41 \<le> c \<and> c \<le> 0x5A)"
    proof
      assume up: "0x41 \<le> c \<and> c \<le> 0x5A"
      then have "0x2000 \<le> c \<Longrightarrow> False"
        using order_trans[of "0x2000::code_unit" c "0x5A"] by simp
      with sp up show False by (auto simp: isSpace_def)
    qed
    then show "asciiLowerUnit c = c" by (simp add: asciiLowerUnit_def)
  qed
  then show "list_all isSpace s \<Longrightarrow> list_all isSpace (asciiLower s)"
    by (induction s) (auto simp: asciiLower_def)
qed

lemma filterAndDisplayFeatures_loaded:
  assumes "allAmenitiesData w = Some data"
  shows "filterAndDisplayFeatures lc q w =
     (let w1 = (case currentLayer w of
                  None \<Rightarrow> w
                | Some l \<Rightarrow> w\<lparr>mapLayers := remove1 l (mapLayers w)\<rparr>);
          ffs = filter (keeps lc (amenityFilter (lc q)) (locationFilter (lc q))) (features data);
          l = geoJSON ffs;
          w2 = w1\<lparr>currentLayer := Some l, mapLayers := mapLayers w1 @ [l]\<rparr>
      in if ffs \<noteq> [] then Inr (w2\<lparr>mapView := FitBounds (getBounds l) (50, 50)\<rparr>)
         else if q \<noteq> [] then
           Inr (w2\<lparr>alerts := alerts w2 @ [noResultsNotice],
                   mapView := SetView ABU_DHABI_CENTER INITIAL_ZOOM\<rparr>)
         else Inr w2)"
  using assms by (simp add: filterAndDisplayFeatures_def filteredFeatures_filter Let_def)

lemma filterAndDisplayFeatures_unloaded:
  "allAmenitiesData w = None \<Longrightarrow> filterAndDisplayFeatures lc q w = Inr w"
  by (simp add: filterAndDisplayFeatures_def)

lemma alerts_removed: 
  "alerts (case currentLayer w of None \<Rightarrow> w | Some l \<Rightarrow> w\<lparr>mapLayers := remove1 l (mapLayers w)\<rparr>) = alerts w"
  by (cases "currentLayer w") auto

lemma handle_unloaded:
  assumes "allAmenitiesData w = None" and "\<not> isLoaded e"
  shows "\<exists>w'. handle lc e w = Inr w' \<and> allAmenitiesData w' = None \<and>
           currentLayer w' = currentLayer w \<and> mapLayers w' = mapLayers w \<and>
           mapView w' = mapView w"
  using assms by (cases e) (auto simp: filterAndDisplayFeatures_unloaded)

lemma run_unloaded:
  assumes "allAmenitiesData w = None" and "\<forall>e \<in> set es. \<not> isLoaded e"
  shows "\<exists>w'. run lc es w = Inr w' \<and> allAmenitiesData w' = None \<and>
           currentLayer w' = currentLayer w \<and> mapLayers w' = mapLayers w \<and>
           mapView w' = mapView w"
  using assms
proof (induction es arbitrary: w)
  case Nil then show ?case by simp
next
  case (Cons e es)
  then obtain w1 where w1: "handle lc e w = Inr w1" "allAmenitiesData w1 = None"
      "currentLayer w1 = currentLayer w" "mapLayers w1 = mapLayers w" "mapView w1 = mapView w"
    using handle_unloaded[of w e lc] by auto
  from Cons.IH[OF w1(2)] Cons.prems(2) obtain w' where
    "run lc es w1 = Inr w'" "allAmenitiesData w' = None"
      "currentLayer w' = currentLayer w1" "mapLayers w' = mapLayers w1" "mapView w' = mapView w1"
    by auto
  with w1 show ?case by simp
qed

lemma green_neq_red: "js ''green'' \<noteq> js ''red''"
  by (simp add: js_def)

section \<open>The filter evaluator\<close>

text \<open>
  C1. For every collection and every query filter, the filter evaluator returns exactly
  the features that satisfy the invariant of the specification (amenity filter absent or
  equal to \<open>amenity_type\<close>; location filter absent or contained in the area, compared
  case-insensitively), in the order of the collection. A query filter holds an amenity
  tag or nothing, and a lowercase, non-empty locality or nothing; of the host's
  \<^verbatim>\<open>toLowerCase\<close> the proof needs only that it maps the empty string to itself.
\<close>

theorem filter_evaluator_matches_invariant:
  assumes "lc [] = []" and "af \<noteq> Some []"
    and "case lf of None \<Rightarrow> True | Some l \<Rightarrow> l \<noteq> [] \<and> lc l = l"
  shows "filteredFeatures lc af lf data = Inr (filter (specMatches lc af lf) (features data)) \<and>
         subseq (filter (specMatches lc af lf) (features data)) (features data)"
proof -
  have loc: "\<forall>l. lf = Some l \<longrightarrow> l \<noteq> [] \<and> lc l = l"
    using assms(3) by (cases lf) auto
  have "keeps lc af lf = specMatches lc af lf"
    using keeps_specMatches[OF assms(1) assms(2) loc] by blast
  then show ?thesis by (simp add: filteredFeatures_filter)
qed

theorem filter_evaluator_matches_invariant_witness:
  "asciiLower [] = [] \<and> Some (js ''park'') \<noteq> Some [] \<and>
   (case Some (js ''corniche'') of None \<Rightarrow> True | Some l \<Rightarrow> l \<noteq> [] \<and> asciiLower l = l) \<and>
   filteredFeatures asciiLower (Some (js ''park'')) (Some (js ''corniche'')) exampleData =
     Inr (filter (specMatches asciiLower (Some (js ''park'')) (Some (js ''corniche'')))
            (features exampleData)) \<and>
   filteredFeatures asciiLower (Some (js ''park'')) (Some (js ''corniche'')) exampleData =
     Inr [mkFeature (24.47, 54.34) ''Family Park'' ''park'' (Some ''Al Corniche'')]"
proof -
  have h1: "asciiLower [] = []" by (simp add: asciiLower_def)
  have h2: "Some (js ''park'') \<noteq> Some []" by (simp add: js_def)
  have h3: "case Some (js ''corniche'') of None \<Rightarrow> True | Some l \<Rightarrow> l \<noteq> [] \<and> asciiLower l = l"
    by (simp add: asciiLower_def asciiLowerUnit_def js_def)
  have run: "filteredFeatures asciiLower (Some (js ''park'')) (Some (js ''corniche'')) exampleData =
      Inr [mkFeature (24.47, 54.34) ''Family Park'' ''park'' (Some ''Al Corniche'')]"
    by (simp add: filteredFeatures_def exampleData_def mkFeature_def featureMatch_def
        indexOf_def asciiLower_def asciiLowerUnit_def js_def)
  show ?thesis
    using h1 h2 h3 run filter_evaluator_matches_invariant [OF h1 h2 h3, of exampleData]
    by blast
qed

section \<open>The query interpreter: amenity\<close>

text \<open>
  C2, as stated: the amenity filter is \<^verbatim>\<open>park\<close> exactly when the text holds
  \<^verbatim>\<open>park\<close> or \<^verbatim>\<open>parks\<close> as a whole word, so that \<^verbatim>\<open>parking\<close> yields no amenity
  filter. The patterns of the source have no word boundary: for the query
  \<^verbatim>\<open>Parking\<close> the reading of the specification gives no filter and the code gives
  \<^verbatim>\<open>park\<close>.
\<close>

theorem parking_counterexample:
  "specAmenityFilter (asciiLower (js ''Parking'')) = None \<and>
   amenityFilter (asciiLower (js ''Parking'')) = Some (js ''park'')"
  by (simp add: specAmenityFilter_def specWholeWord_def amenityFilter_def parkPattern_def
      isWordChar_def asciiLower_def asciiLowerUnit_def js_def)

text \<open>
  C2, amended: the amenity filter is \<^verbatim>\<open>park\<close> exactly when the lowercased text
  contains \<^verbatim>\<open>park\<close> as a substring, inside a longer word or not; otherwise it is
  \<^verbatim>\<open>hospital\<close> exactly when the lowercased text contains \<^verbatim>\<open>hospital\<close> or
  \<^verbatim>\<open>clinic\<close> as a substring; otherwise it is absent.
\<close>

theorem amenity_filter_substring:
  "(amenityFilter (lc q) = Some (js ''park'') \<longleftrightarrow> contains (lc q) (js ''park'')) \<and>
   (amenityFilter (lc q) = Some (js ''hospital'') \<longleftrightarrow>
      \<not> contains (lc q) (js ''park'') \<and>
      (contains (lc q) (js ''hospital'') \<or> contains (lc q) (js ''clinic''))) \<and>
   (amenityFilter (lc q) = None \<longleftrightarrow>
      \<not> contains (lc q) (js ''park'') \<and> \<not> contains (lc q) (js ''hospital'') \<and>
      \<not> contains (lc q) (js ''clinic''))"
  using park_neq_hospital
  by (auto simp: amenityFilter_def test_parkPattern test_hospitalPattern)

theorem amenity_filter_substring_witness:
  "amenityFilter (asciiLower (js ''Free PARKING in town'')) = Some (js ''park'') \<and>
   contains (asciiLower (js ''Free PARKING in town'')) (js ''park'') \<and>
   amenityFilter (asciiLower (js ''Clinics near me'')) = Some (js ''hospital'') \<and>
   \<not> contains (asciiLower (js ''Clinics near me'')) (js ''park'') \<and>
   amenityFilter (asciiLower (js ''schools'')) = None"
  using amenity_filter_substring [of asciiLower "js ''Free PARKING in town''"]
        amenity_filter_substring [of asciiLower "js ''Clinics near me''"]
        amenity_filter_substring [of asciiLower "js ''schools''"]
  by (simp add: asciiLower_def asciiLowerUnit_def js_def)

text \<open>
  C3. The park pattern is tested first: a text that matches both patterns gets
  \<^verbatim>\<open>park\<close>. The amenity filter is \<^verbatim>\<open>park\<close>, \<^verbatim>\<open>hospital\<close> or absent and nothing
  else. A text with \<^verbatim>\<open>hospital\<close> or \<^verbatim>\<open>clinic\<close> and without \<^verbatim>\<open>park\<close> gets
  \<^verbatim>\<open>hospital\<close>. A text that matches neither pattern, whatever other amenity words it
  has, gets no amenity filter, and then every feature passes the amenity check.
\<close>

theorem amenity_priority:
  "(test parkPattern s \<and> test hospitalPattern s \<longrightarrow> amenityFilter s = Some (js ''park'')) \<and>
   (amenityFilter s = None \<or> amenityFilter s = Some (js ''park'')
      \<or> amenityFilter s = Some (js ''hospital'')) \<and>
   ((contains s (js ''hospital'') \<or> contains s (js ''clinic'')) \<and> \<not> contains s (js ''park'')
      \<longrightarrow> amenityFilter s = Some (js ''hospital'')) \<and>
   (\<not> test parkPattern s \<and> \<not> test hospitalPattern s
      \<longrightarrow> amenityFilter s = None \<and> (\<forall>f. featureMatch lc (amenityFilter s) None f = Inr True))"
  by (auto simp: amenityFilter_def test_parkPattern test_hospitalPattern featureMatch_value)

theorem amenity_priority_witness:
  "test parkPattern (js ''parks and hospitals'') \<and> test hospitalPattern (js ''parks and hospitals'') \<and>
   amenityFilter (js ''parks and hospitals'') = Some (js ''park'') \<and>
   contains (js ''clinics near corniche'') (js ''clinic'') \<and>
   \<not> contains (js ''clinics near corniche'') (js ''park'') \<and>
   amenityFilter (js ''clinics near corniche'') = Some (js ''hospital'') \<and>
   \<not> test parkPattern (js ''schools in corniche'') \<and>
   \<not> test hospitalPattern (js ''schools in corniche'') \<and>
   amenityFilter (js ''schools in corniche'') = None \<and>
   featureMatch asciiLower (amenityFilter (js ''schools in corniche'')) None
     (mkFeature (24.42, 54.43) ''Mushrif Park'' ''park'' None) = Inr True"
proof -
  let ?a = "js ''parks and hospitals''"
  let ?b = "js ''clinics near corniche''"
  let ?c = "js ''schools in corniche''"
  have ha: "test parkPattern ?a \<and> test hospitalPattern ?a"
    by (simp add: parkPattern_def hospitalPattern_def js_def)
  have hb: "contains ?b (js ''clinic'') \<and> \<not> contains ?b (js ''park'')"
    by (simp add: js_def)
  have hc: "\<not> test parkPattern ?c \<and> \<not> test hospitalPattern ?c"
    by (simp add: parkPattern_def hospitalPattern_def js_def)
  have "amenityFilter ?a = Some (js ''park'')"
    using ha amenity_priority [of ?a asciiLower] by blast
  moreover have "amenityFilter ?b = Some (js ''hospital'')"
    using hb amenity_priority [of ?b asciiLower] by blast
  moreover have "amenityFilter ?c = None \<and>
      featureMatch asciiLower (amenityFilter ?c) None
        (mkFeature (24.42, 54.43) ''Mushrif Park'' ''park'' None) = Inr True"
    using hc amenity_priority [of ?c asciiLower] by blast
  ultimately show ?thesis using ha hb hc by blast
qed

section \<open>The query interpreter: location\<close>

text \<open>
  C4. The location filter is \<^verbatim>\<open>corniche\<close> if and only if the lowercased text holds
  \<^verbatim>\<open>near\<close>, \<^verbatim>\<open>at\<close> or \<^verbatim>\<open>in\<close>, then whitespace, then \<^verbatim>\<open>corniche\<close>; for any other
  text it is absent, and no other locality is ever produced.
\<close>

theorem location_filter_pattern:
  "(locationFilter (lc q) = Some (js ''corniche'') \<longleftrightarrow> specLocationPhrase (lc q)) \<and>
   (\<not> specLocationPhrase (lc q) \<longrightarrow> locationFilter (lc q) = None) \<and>
   (locationFilter (lc q) = None \<or> locationFilter (lc q) = Some (js ''corniche''))"
  by (simp add: locationFilter_def test_locationPattern)

theorem location_filter_pattern_witness:
  "locationFilter (asciiLower (js ''Hospitals NEAR  Corniche'')) = Some (js ''corniche'') \<and>
   specLocationPhrase (asciiLower (js ''Hospitals NEAR  Corniche'')) \<and>
   \<not> specLocationPhrase (asciiLower (js ''parks in Downtown'')) \<and>
   locationFilter (asciiLower (js ''parks in Downtown'')) = None"
proof -
  have a: "locationFilter (asciiLower (js ''Hospitals NEAR  Corniche'')) = Some (js ''corniche'')"
    by (simp add: locationFilter_def locationPattern_def isSpace_def asciiLower_def
        asciiLowerUnit_def js_def)
  have b: "locationFilter (asciiLower (js ''parks in Downtown'')) = None"
    by (simp add: locationFilter_def locationPattern_def isSpace_def asciiLower_def
        asciiLowerUnit_def js_def)
  show ?thesis
    using a b location_filter_pattern [of asciiLower "js ''Hospitals NEAR  Corniche''"]
      location_filter_pattern [of asciiLower "js ''parks in Downtown''"]
    by simp
qed

section \<open>Queries without a constraint\<close>

text \<open>
  C5. A query that is empty, or made of whitespace only, or whose lowercased text holds
  none of the keywords (no \<^verbatim>\<open>park\<close>, \<^verbatim>\<open>hospital\<close> or \<^verbatim>\<open>clinic\<close> and no location
  phrase) gives the empty query filter, and the filter evaluator then returns the whole
  collection in its order. Of the host's \<^verbatim>\<open>toLowerCase\<close> the proof needs only that it
  turns whitespace into whitespace.
\<close>

theorem empty_query_filter:
  assumes host: "\<forall>s. list_all isSpace s \<longrightarrow> list_all isSpace (lc s)"
    and q: "q = [] \<or> list_all isSpace q \<or>
            (\<not> contains (lc q) (js ''park'') \<and> \<not> contains (lc q) (js ''hospital'') \<and>
             \<not> contains (lc q) (js ''clinic'') \<and> \<not> specLocationPhrase (lc q))"
  shows "amenityFilter (lc q) = None \<and> locationFilter (lc q) = None \<and>
         filteredFeatures lc (amenityFilter (lc q)) (locationFilter (lc q)) data =
           Inr (features data)"
proof -
  have none: "\<not> contains (lc q) (js ''park'') \<and> \<not> contains (lc q) (js ''hospital'') \<and>
              \<not> contains (lc q) (js ''clinic'') \<and> \<not> specLocationPhrase (lc q)"
  proof (cases "list_all isSpace q")
    case True
    then have "list_all isSpace (lc q)" using host by blast
    then show ?thesis using spaces_no_keyword by blast
  next
    case False
    then show ?thesis using q by auto
  qed
  then have "amenityFilter (lc q) = None" "locationFilter (lc q) = None"
    by (simp_all add: amenityFilter_def locationFilter_def test_parkPattern
        test_hospitalPattern test_locationPattern)
  then show ?thesis by (simp add: no_filter_keeps_all)
qed

theorem empty_query_filter_witness:
  "list_all isSpace (asciiLower (js ''   '')) \<and>
   list_all isSpace (js ''   '') \<and>
   amenityFilter (asciiLower (js ''   '')) = None \<and>
   locationFilter (asciiLower (js ''   '')) = None \<and>
   filteredFeatures asciiLower (amenityFilter (asciiLower (js ''   '')))
     (locationFilter (asciiLower (js ''   ''))) exampleData = Inr (features exampleData) \<and>
   filteredFeatures asciiLower (amenityFilter (asciiLower []))
     (locationFilter (asciiLower [])) exampleData = Inr (features exampleData) \<and>
   \<not> contains (asciiLower (js ''Schools at Downtown'')) (js ''park'') \<and>
   \<not> contains (asciiLower (js ''Schools at Downtown'')) (js ''hospital'') \<and>
   \<not> contains (asciiLower (js ''Schools at Downtown'')) (js ''clinic'') \<and>
   \<not> specLocationPhrase (asciiLower (js ''Schools at Downtown'')) \<and>
   filteredFeatures asciiLower (amenityFilter (asciiLower (js ''Schools at Downtown'')))
     (locationFilter (asciiLower (js ''Schools at Downtown''))) exampleData =
     Inr (features exampleData)"
proof -
  let ?q = "js ''Schools at Downtown''"
  have host: "\<forall>s. list_all isSpace s \<longrightarrow> list_all isSpace (asciiLower s)"
    using asciiLower_spaces by blast
  have ws: "list_all isSpace (js ''   '')" by (simp add: js_def isSpace_def)
  have k: "\<not> contains (asciiLower ?q) (js ''park'') \<and>
           \<not> contains (asciiLower ?q) (js ''hospital'') \<and>
           \<not> contains (asciiLower ?q) (js ''clinic'')"
    by (simp add: asciiLower_def asciiLowerUnit_def js_def)
  have "\<not> test locationPattern (asciiLower ?q)"
    by (simp add: locationPattern_def isSpace_def asciiLower_def asciiLowerUnit_def js_def)
  then have p: "\<not> specLocationPhrase (asciiLower ?q)"
    by (simp add: test_locationPattern)
  show ?thesis
    using host ws k p empty_query_filter [of asciiLower "js ''   ''" exampleData]
      empty_query_filter [of asciiLower "[]" exampleData]
      empty_query_filter [of asciiLower ?q exampleData]
    by blast
qed

section \<open>The notice\<close>

text \<open>
  C6. With the data loaded, the notice \<^verbatim>\<open>No results found for your query.\<close> is raised if
  and only if the filtered result is empty and the query string is not the empty string,
  and then the viewport is set to the default centre and zoom; in every other case no
  notice is added. A query that is the empty string never raises the notice, in any state.
\<close>

theorem no_results_notice:
  "(allAmenitiesData w = Some data \<longrightarrow>
      (\<exists>ffs w'.
         filteredFeatures lc (amenityFilter (lc q)) (locationFilter (lc q)) data = Inr ffs \<and>
         filterAndDisplayFeatures lc q w = Inr w' \<and>
         (alerts w' = alerts w @ [noResultsNotice] \<longleftrightarrow> ffs = [] \<and> q \<noteq> []) \<and>
         (alerts w' = alerts w \<longleftrightarrow> \<not> (ffs = [] \<and> q \<noteq> [])) \<and>
         (ffs = [] \<and> q \<noteq> [] \<longrightarrow> mapView w' = SetView ABU_DHABI_CENTER INITIAL_ZOOM))) \<and>
   (\<exists>w'. filterAndDisplayFeatures lc [] w = Inr w' \<and> alerts w' = alerts w)"
proof (cases "allAmenitiesData w")
  case None
  then show ?thesis by (simp add: filterAndDisplayFeatures_unloaded)
next
  case (Some d)
  show ?thesis
    unfolding filteredFeatures_filter filterAndDisplayFeatures_loaded[OF Some]
    using Some by (simp add: Let_def alerts_removed)
qed

theorem no_results_notice_witness:
  "allAmenitiesData loadedWorld = Some exampleData \<and>
   (\<exists>w'. filterAndDisplayFeatures asciiLower (js ''Hospitals near Corniche'') loadedWorld = Inr w' \<and>
         alerts w' = [noResultsNotice] \<and>
         mapView w' = SetView ABU_DHABI_CENTER INITIAL_ZOOM) \<and>
   (\<exists>w'. filterAndDisplayFeatures asciiLower [] loadedWorld = Inr w' \<and> alerts w' = [])"
proof -
  let ?q = "js ''Hospitals near Corniche''"
  have d: "allAmenitiesData loadedWorld = Some exampleData"
    by (simp add: loadedWorld_def)
  have a: "alerts loadedWorld = []"
    by (simp add: loadedWorld_def initialWorld_def)
  have q: "?q \<noteq> []" by (simp add: js_def)
  have af: "amenityFilter (asciiLower ?q) = Some (js ''hospital'')"
    by (simp add: amenityFilter_def parkPattern_def hospitalPattern_def asciiLower_def
        asciiLowerUnit_def js_def)
  have lf: "locationFilter (asciiLower ?q) = Some (js ''corniche'')"
    by (simp add: locationFilter_def locationPattern_def isSpace_def asciiLower_def
        asciiLowerUnit_def js_def)
  have e: "filteredFeatures asciiLower (amenityFilter (asciiLower ?q))
             (locationFilter (asciiLower ?q)) exampleData = Inr []"
    unfolding af lf
    by (simp add: filteredFeatures_def exampleData_def mkFeature_def featureMatch_def
        indexOf_def asciiLower_def asciiLowerUnit_def js_def)
  show ?thesis
    using d a q e no_results_notice [of loadedWorld exampleData asciiLower ?q]
    by auto
qed

section \<open>Idempotence\<close>

text \<open>
  C7. The filter evaluator is idempotent and keeps the order: for every collection and
  every query filter the call returns a subsequence of the collection, and filtering that
  result again with the same query filter returns the same sequence.
\<close>

theorem filter_idempotent:
  "\<exists>r. filteredFeatures lc af lf data = Inr r \<and>
        filteredFeatures lc af lf (data\<lparr>features := r\<rparr>) = Inr r \<and>
        subseq r (features data)"
  by (simp add: filteredFeatures_filter)

theorem filter_idempotent_witness:
  "filteredFeatures asciiLower (Some (js ''park'')) (Some (js ''corniche'')) exampleData =
     Inr [mkFeature (24.47, 54.34) ''Family Park'' ''park'' (Some ''Al Corniche'')] \<and>
   filteredFeatures asciiLower (Some (js ''park'')) (Some (js ''corniche''))
     (exampleData\<lparr>features :=
        [mkFeature (24.47, 54.34) ''Family Park'' ''park'' (Some ''Al Corniche'')]\<rparr>) =
     Inr [mkFeature (24.47, 54.34) ''Family Park'' ''park'' (Some ''Al Corniche'')]"
proof -
  have run: "filteredFeatures asciiLower (Some (js ''park'')) (Some (js ''corniche'')) exampleData =
      Inr [mkFeature (24.47, 54.34) ''Family Park'' ''park'' (Some ''Al Corniche'')]"
    by (simp add: filteredFeatures_def exampleData_def mkFeature_def featureMatch_def
        indexOf_def asciiLower_def asciiLowerUnit_def js_def)
  show ?thesis
    using run
      filter_idempotent [of asciiLower "Some (js ''park'')" "Some (js ''corniche'')" exampleData]
    by auto
qed

section \<open>Features without an area\<close>

text \<open>
  C8. For every non-empty location filter, a feature whose area is \<^verbatim>\<open>null\<close> or missing
  never matches: the callback returns \<^verbatim>\<open>false\<close> for it without throwing, and the
  feature is not in the result.
\<close>

theorem null_area_never_matches:
  assumes "l \<noteq> []" and "area (properties f) = None"
  shows "featureMatch lc af (Some l) f = Inr False \<and>
         (\<exists>r. filteredFeatures lc af (Some l) data = Inr r \<and> f \<notin> set r)"
  using assms by (simp add: filteredFeatures_filter keeps_def featureMatch_value)

theorem null_area_never_matches_witness:
  "js ''corniche'' \<noteq> [] \<and>
   area (properties (mkFeature (24.42, 54.43) ''Mushrif Park'' ''park'' None)) = None \<and>
   featureMatch asciiLower (Some (js ''park'')) (Some (js ''corniche''))
     (mkFeature (24.42, 54.43) ''Mushrif Park'' ''park'' None) = Inr False \<and>
   (\<exists>r. filteredFeatures asciiLower (Some (js ''park'')) (Some (js ''corniche'')) exampleData = Inr r \<and>
        mkFeature (24.42, 54.43) ''Mushrif Park'' ''park'' None \<notin> set r)"
proof -
  have h1: "js ''corniche'' \<noteq> []" by (simp add: js_def)
  have h2: "area (properties (mkFeature (24.42, 54.43) ''Mushrif Park'' ''park'' None)) = None"
    by (simp add: mkFeature_def)
  show ?thesis
    using h1 h2
      null_area_never_matches [OF h1 h2, of asciiLower "Some (js ''park'')" exampleData]
    by blast
qed

section \<open>Before the data is loaded\<close>

text \<open>
  C9. While the loaded data is absent, a submitted query does nothing: the function
  returns the state it was given, through the button and through the Enter key alike.
  As long as no load has succeeded, whatever is submitted and however often the load
  fails, no layer is built and the viewport stays as it was.
\<close>

theorem query_before_load_noop:
  assumes "allAmenitiesData w = None"
  shows "filterAndDisplayFeatures lc q w = Inr w \<and>
         handle lc (Click q) w = Inr w \<and> handle lc (Keypress k q) w = Inr w \<and>
         (\<not> list_ex isLoaded es \<longrightarrow>
            (\<exists>w'. run lc es w = Inr w' \<and> allAmenitiesData w' = None \<and>
                  currentLayer w' = currentLayer w \<and> mapLayers w' = mapLayers w \<and>
                  mapView w' = mapView w))"
proof -
  have "\<not> list_ex isLoaded es \<longrightarrow>
            (\<exists>w'. run lc es w = Inr w' \<and> allAmenitiesData w' = None \<and>
                  currentLayer w' = currentLayer w \<and> mapLayers w' = mapLayers w \<and>
                  mapView w' = mapView w)"
    using run_unloaded[OF assms, of es lc] by (simp add: list_ex_iff)
  then show ?thesis
    using assms by (simp add: filterAndDisplayFeatures_unloaded)
qed

theorem query_before_load_noop_witness:
  "allAmenitiesData initialWorld = None \<and>
   \<not> list_ex isLoaded [Click (js ''Show parks''), LoadFailed (js ''TypeError''),
                        Keypress (js ''Enter'') (js ''hospitals'')] \<and>
   filterAndDisplayFeatures asciiLower (js ''Show parks'') initialWorld = Inr initialWorld \<and>
   (\<exists>w'. run asciiLower [Click (js ''Show parks''), LoadFailed (js ''TypeError''),
                        Keypress (js ''Enter'') (js ''hospitals'')] initialWorld = Inr w' \<and>
         allAmenitiesData w' = None \<and> currentLayer w' = None \<and> mapLayers w' = [] \<and>
         mapView w' = SetView ABU_DHABI_CENTER INITIAL_ZOOM)"
proof -
  let ?es = "[Click (js ''Show parks''), LoadFailed (js ''TypeError''),
              Keypress (js ''Enter'') (js ''hospitals'')]"
  have h: "allAmenitiesData initialWorld = None" by (simp add: initialWorld_def)
  have es: "\<not> list_ex isLoaded ?es" by simp
  have i: "currentLayer initialWorld = None" "mapLayers initialWorld = []"
      "mapView initialWorld = SetView ABU_DHABI_CENTER INITIAL_ZOOM"
    by (simp_all add: initialWorld_def)
  show ?thesis
    using h es i
      query_before_load_noop [OF h, of asciiLower "js ''Show parks''" "js ''Enter''" ?es]
    by metis
qed

section \<open>The marker style\<close>

text \<open>
  C10. The marker style depends on \<open>amenity_type\<close> through the fill colour alone, and
  that has two values: green if and only if \<open>amenity_type\<close> is \<^verbatim>\<open>park\<close>, red for every
  other value. Two features that are not parks get the same marker at the same place.
\<close>

theorem marker_colour_two_valued:
  "(fillColor (pointToLayer f ll) = js ''green'' \<longleftrightarrow> amenity_type (properties f) = js ''park'') \<and>
   (fillColor (pointToLayer f ll) = js ''red'' \<longleftrightarrow> amenity_type (properties f) \<noteq> js ''park'') \<and>
   (amenity_type (properties f) \<noteq> js ''park'' \<and> amenity_type (properties g) \<noteq> js ''park''
      \<longrightarrow> pointToLayer f ll = pointToLayer g ll) \<and>
   (pointToLayer f ll)\<lparr>fillColor := c\<rparr> = (pointToLayer g ll)\<lparr>fillColor := c\<rparr>"
  using green_neq_red by (auto simp: pointToLayer_def Let_def)

theorem marker_colour_two_valued_witness:
  "amenity_type (properties (mkFeature (24.48, 54.36) ''City Clinic'' ''hospital'' None)) \<noteq> js ''park'' \<and>
   amenity_type (properties (mkFeature (24.44, 54.40) ''Al Nahda School'' ''school'' None)) \<noteq> js ''park'' \<and>
   pointToLayer (mkFeature (24.48, 54.36) ''City Clinic'' ''hospital'' None) (24.48, 54.36) =
     pointToLayer (mkFeature (24.44, 54.40) ''Al Nahda School'' ''school'' None) (24.48, 54.36) \<and>
   fillColor (pointToLayer (mkFeature (24.48, 54.36) ''City Clinic'' ''hospital'' None) (24.48, 54.36)) =
     js ''red'' \<and>
   fillColor (pointToLayer (mkFeature (24.47, 54.34) ''Family Park'' ''park'' None) (24.47, 54.34)) =
     js ''green''"
proof -
  let ?h = "mkFeature (24.48, 54.36) ''City Clinic'' ''hospital'' None"
  let ?s = "mkFeature (24.44, 54.40) ''Al Nahda School'' ''school'' None"
  let ?p = "mkFeature (24.47, 54.34) ''Family Park'' ''park'' None"
  have h: "amenity_type (properties ?h) \<noteq> js ''park''"
    by (simp add: mkFeature_def js_def)
  have s: "amenity_type (properties ?s) \<noteq> js ''park''"
    by (simp add: mkFeature_def js_def)
  have p: "amenity_type (properties ?p) = js ''park''"
    by (simp add: mkFeature_def)
  show ?thesis
    using h s p marker_colour_two_valued [of ?h "(24.48, 54.36)" ?s]
      marker_colour_two_valued [of ?p "(24.47, 54.34)" ?h]
    by blast
qed

end
